theory Spec2Isabelle
  imports Main
begin

section \<open>Data model\<close>

text \<open>
  \<^verbatim>\<open>class OrderItem(BaseModel)\<close>: one validated line of an order, with its four
  required fields. Python's \<^verbatim>\<open>int\<close> is unbounded, hence \<open>int\<close>; neither field is
  constrained any further by the class.
\<close>

record OrderItem =
  drinkId :: string
  drinkName :: string
  quantity :: int
  calories :: int

text \<open>
  The dictionaries the program handles: an item of a request body before validation, an
  element of the \<^verbatim>\<open>esp_items\<close> list, and an element of the JSON array kept in
  \<^verbatim>\<open>orders.json\<close>. A key may be absent (\<open>None\<close>), which is what
  \<^verbatim>\<open>item.get("drinkName")\<close> and \<^verbatim>\<open>item.get("quantity", 1)\<close> test for. The value
  under a key that is present has the type \<^verbatim>\<open>OrderItem\<close> gives the field, as every
  dictionary written by \<^verbatim>\<open>checkout\<close> has.
\<close>

record order_dict =
  d_drinkId :: "string option"
  d_drinkName :: "string option"
  d_quantity :: "int option"
  d_calories :: "int option"

text \<open>A JSON document, as \<^verbatim>\<open>r.json()\<close> decodes the reply of the device.\<close>

datatype json =
    JNull
  | JBool bool
  | JNum int
  | JStr string
  | JArr "json list"
  | JObj "(string \<times> json) list"

text \<open>
  The body of an HTTP response either is a JSON document or is not; \<^verbatim>\<open>r.json()\<close>
  returns the decoded document in the first case and raises in the second, with the
  decoder's message.
\<close>

datatype body = JsonBody json | NotJson string

text \<open>
  An HTTP response as \<^verbatim>\<open>send_to_esp\<close> looks at it: the status code, the text of the
  \<^verbatim>\<open>HTTPStatusError\<close> that \<^verbatim>\<open>raise_for_status\<close> builds from the response when the
  status is not a success, and the body.
\<close>

record response =
  status_code :: int
  status_error :: string
  content :: body

text \<open>
  The exceptions \<^verbatim>\<open>send_to_esp\<close> can let escape, each with the text \<^verbatim>\<open>str(e)\<close>
  gives: a timeout (connect within 3 s, the other phases within 8 s), another
  transport-level failure, a status that is not a success, a body that is not JSON.
\<close>

datatype exn =
    TimeoutException string
  | TransportError string
  | HTTPStatusError int string
  | JSONDecodeError string

fun str_exn :: "exn \<Rightarrow> string" where
  "str_exn (TimeoutException m) = m"
| "str_exn (TransportError m) = m"
| "str_exn (HTTPStatusError c m) = m"
| "str_exn (JSONDecodeError m) = m"

text \<open>What \<^verbatim>\<open>await client.post(url, json=payload)\<close> does: raise, or return a response.\<close>

datatype post_outcome = PostRaises exn | PostReturns response

text \<open>
  The effects of the program on its environment, in the order they happen: the test
  \<^verbatim>\<open>ORDERS_FILE.exists()\<close>, reading \<^verbatim>\<open>orders.json\<close>, rewriting it, and the POST
  of a list of items to the device.
\<close>

datatype io_event =
    FileExists
  | FileRead
  | FileWrite "order_dict list"
  | HttpPost "order_dict list"

text \<open>
  The environment: the content of \<^verbatim>\<open>orders.json\<close> (\<open>None\<close> while the file does not
  exist; otherwise the JSON array it holds, which is all \<^verbatim>\<open>save_orders\<close> ever
  writes) and the log of the effects so far.
\<close>

record world =
  orders_file :: "order_dict list option"
  io_log :: "io_event list"

text \<open>The dictionary \<^verbatim>\<open>checkout\<close> returns; the key \<^verbatim>\<open>esp\<close> is present on success only.\<close>

record checkout_reply =
  status :: string
  message :: string
  esp :: "json option"

section \<open>The device relay\<close>

definition is_success :: "response \<Rightarrow> bool" where
  "is_success r \<longleftrightarrow> 200 \<le> status_code r \<and> status_code r \<le> 299"

text \<open>
  \<^verbatim>\<open>send_to_esp\<close>: one POST of \<^verbatim>\<open>{"items": items}\<close>, then
  \<^verbatim>\<open>r.raise_for_status()\<close>, then \<^verbatim>\<open>return r.json()\<close>. The parameter \<open>post\<close> is the
  network and the device: what the POST of a given list of items does.
\<close>

definition send_to_esp ::
  "order_dict list \<Rightarrow> (order_dict list \<Rightarrow> post_outcome) \<Rightarrow> world \<Rightarrow> (exn + json) \<times> world" where
  "send_to_esp items post w =
     (let w1 = w\<lparr>io_log := io_log w @ [HttpPost items]\<rparr> in
      case post items of
        PostRaises e \<Rightarrow> (Inl e, w1)
      | PostReturns r \<Rightarrow>
          if \<not> is_success r then (Inl (HTTPStatusError (status_code r) (status_error r)), w1)
          else (case content r of
                  JsonBody j \<Rightarrow> (Inr j, w1)
                | NotJson m \<Rightarrow> (Inl (JSONDecodeError m), w1)))"

section \<open>The order history\<close>

text \<open>\<^verbatim>\<open>load_orders\<close>: the empty list while the file does not exist, else its content.\<close>

definition load_orders :: "world \<Rightarrow> order_dict list \<times> world" where
  "load_orders w =
     (case orders_file w of
        None \<Rightarrow> ([], w\<lparr>io_log := io_log w @ [FileExists]\<rparr>)
      | Some orders \<Rightarrow> (orders, w\<lparr>io_log := io_log w @ [FileExists, FileRead]\<rparr>))"

text \<open>\<^verbatim>\<open>save_orders\<close>: the file is opened for writing and holds the whole list afterwards.\<close>

definition save_orders :: "order_dict list \<Rightarrow> world \<Rightarrow> world" where
  "save_orders orders w =
     w\<lparr>orders_file := Some orders, io_log := io_log w @ [FileWrite orders]\<rparr>"

section \<open>Top drinks\<close>

text \<open>
  A \<^verbatim>\<open>collections.Counter\<close> is a dictionary, so it keeps its keys in the order of their
  first insertion: an association list. \<^verbatim>\<open>counter[name] += qty\<close> reads a missing key
  as 0 and stores the sum under the key, whatever its sign.
\<close>

type_synonym counter = "(string \<times> int) list"

fun counter_add :: "counter \<Rightarrow> string \<Rightarrow> int \<Rightarrow> counter" where
  "counter_add [] name qty = [(name, 0 + qty)]"
| "counter_add ((k, v) # c) name qty =
     (if k = name then (k, v + qty) # c else (k, v) # counter_add c name qty)"

text \<open>
  \<^verbatim>\<open>Counter.most_common(n)\<close> is \<^verbatim>\<open>heapq.nlargest(n, self.items(), key=itemgetter(1))\<close>:
  the first \<open>n\<close> items of the counter sorted by decreasing count, items of equal count in
  the order the counter has them (a stable sort), and no item when \<open>n\<close> is not positive.
\<close>

definition most_common :: "int \<Rightarrow> counter \<Rightarrow> counter" where
  "most_common n c = take (nat n) (sort_key (\<lambda>(name, count). - count) c)"

text \<open>
  The loop of \<^verbatim>\<open>get_top_drinks\<close> over the orders. \<^verbatim>\<open>if name:\<close> holds for a name that
  is present and not the empty string.
\<close>

fun count_orders :: "order_dict list \<Rightarrow> counter \<Rightarrow> counter" where
  "count_orders [] counter = counter"
| "count_orders (item # orders) counter =
     (let name = d_drinkName item;
          qty = (case d_quantity item of None \<Rightarrow> 1 | Some q \<Rightarrow> q)
      in case name of
           None \<Rightarrow> count_orders orders counter
         | Some n \<Rightarrow>
             if n \<noteq> [] then count_orders orders (counter_add counter n qty)
             else count_orders orders counter)"

definition get_top_drinks :: "int \<Rightarrow> world \<Rightarrow> string list \<times> world" where
  "get_top_drinks limit w =
     (case load_orders w of
        (orders, w1) \<Rightarrow>
          if orders = [] then ([], w1)
          else (map fst (most_common limit (count_orders orders [])), w1))"

text \<open>
  \<^verbatim>\<open>recommendations\<close>: the part of the page that depends on the history is either the
  paragraph saying that no order has been placed yet, or the list of the names.
\<close>

datatype rec_html = NoOrdersYet | DrinkList "string list"

definition recommendations :: "world \<Rightarrow> rec_html \<times> world" where
  "recommendations w =
     (case get_top_drinks 3 w of
        (top_names, w1) \<Rightarrow>
          (if top_names = [] then NoOrdersYet else DrinkList top_names, w1))"

section \<open>Checkout\<close>

definition to_dict :: "OrderItem \<Rightarrow> order_dict" where
  "to_dict i =
     \<lparr>d_drinkId = Some (drinkId i), d_drinkName = Some (drinkName i),
      d_quantity = Some (quantity i), d_calories = Some (calories i)\<rparr>"

text \<open>The body of \<^verbatim>\<open>checkout\<close>, which runs on validated items.\<close>

definition checkout ::
  "OrderItem list \<Rightarrow> (order_dict list \<Rightarrow> post_outcome) \<Rightarrow> world \<Rightarrow> checkout_reply \<times> world" where
  "checkout items post w =
     (let esp_items = map to_dict items in
      case send_to_esp esp_items post w of
        (Inl e, w1) \<Rightarrow>
          (\<lparr>status = ''error'', message = ''Could not reach robot: '' @ str_exn e,
            esp = None\<rparr>, w1)
      | (Inr esp_reply, w1) \<Rightarrow>
          (case load_orders w1 of
             (orders, w2) \<Rightarrow>
               (\<lparr>status = ''ok'', message = ''Order sent to robot and saved!'',
                 esp = Some esp_reply\<rparr>,
                save_orders (orders @ esp_items) w2)))"

section \<open>The request boundary\<close>

text \<open>
  The handler is declared \<^verbatim>\<open>async def checkout(items: List[OrderItem])\<close>, so the
  framework builds the \<^verbatim>\<open>OrderItem\<close>s from the request body before it calls the
  handler, and answers by itself (HTTP 422, with one entry per offending field giving the
  index of the item and the name of the field) when that fails; the program installs no
  handler of its own for this case. A required field fails when its key is absent.
\<close>

definition missing_fields :: "order_dict \<Rightarrow> string list" where
  "missing_fields d =
     (if d_drinkId d = None then [''drinkId''] else []) @
     (if d_drinkName d = None then [''drinkName''] else []) @
     (if d_quantity d = None then [''quantity''] else []) @
     (if d_calories d = None then [''calories''] else [])"

definition validate_item :: "order_dict \<Rightarrow> string list + OrderItem" where
  "validate_item d =
     (case (d_drinkId d, d_drinkName d, d_quantity d, d_calories d) of
        (Some i, Some n, Some q, Some c) \<Rightarrow>
          Inr \<lparr>drinkId = i, drinkName = n, quantity = q, calories = c\<rparr>
      | _ \<Rightarrow> Inl (missing_fields d))"

fun validate_items :: "nat \<Rightarrow> order_dict list \<Rightarrow> (nat \<times> string) list + OrderItem list" where
  "validate_items k [] = Inr []"
| "validate_items k (d # ds) =
     (case (validate_item d, validate_items (Suc k) ds) of
        (Inr i, Inr is) \<Rightarrow> Inr (i # is)
      | (Inr i, Inl es) \<Rightarrow> Inl es
      | (Inl fs, Inr is) \<Rightarrow> Inl (map (Pair k) fs)
      | (Inl fs, Inl es) \<Rightarrow> Inl (map (Pair k) fs @ es))"

text \<open>
  What a POST to \<^verbatim>\<open>/checkout\<close> is answered with: the framework's validation error, or
  the dictionary the handler returns.
\<close>

datatype http_result = Unprocessable "(nat \<times> string) list" | Returned checkout_reply

definition checkout_endpoint ::
  "order_dict list \<Rightarrow> (order_dict list \<Rightarrow> post_outcome) \<Rightarrow> world \<Rightarrow> http_result \<times> world" where
  "checkout_endpoint raw post w =
     (case validate_items 0 raw of
        Inl errors \<Rightarrow> (Unprocessable errors, w)
      | Inr items \<Rightarrow> (case checkout items post w of (r, w1) \<Rightarrow> (Returned r, w1)))"

text \<open>Whether an answer is a dictionary with \<^verbatim>\<open>"status": "error"\<close>.\<close>

fun is_error_reply :: "http_result \<Rightarrow> bool" where
  "is_error_reply (Returned r) = (status r = ''error'')"
| "is_error_reply (Unprocessable errors) = False"

section \<open>The vocabulary of the specification\<close>

text \<open>
  The quantity an entry of the history stands for, the accumulated quantity of a name
  (the sum over all entries bearing it), the position of the first entry bearing a name,
  the names the history mentions, and the order the specification asks for: more
  accumulated quantity first, and among equals the name that occurs first.
\<close>

definition qty_of :: "order_dict \<Rightarrow> int" where
  "qty_of e = (case d_quantity e of None \<Rightarrow> 1 | Some q \<Rightarrow> q)"

definition total :: "order_dict list \<Rightarrow> string \<Rightarrow> int" where
  "total h n = sum_list (map qty_of (filter (\<lambda>e. d_drinkName e = Some n) h))"

definition first_pos :: "order_dict list \<Rightarrow> string \<Rightarrow> nat" where
  "first_pos h n = length (takeWhile (\<lambda>e. d_drinkName e \<noteq> Some n) h)"

definition names_of :: "order_dict list \<Rightarrow> string set" where
  "names_of h = {n. n \<noteq> [] \<and> (\<exists>e\<in>set h. d_drinkName e = Some n)}"

definition ranks_before :: "order_dict list \<Rightarrow> string \<Rightarrow> string \<Rightarrow> bool" where
  "ranks_before h a b \<longleftrightarrow>
     total h b < total h a \<or> (total h a = total h b \<and> first_pos h a < first_pos h b)"

text \<open>The invariant of the counting loop, and the names in rank order before the cut.\<close>

definition counter_inv :: "order_dict list \<Rightarrow> counter \<Rightarrow> bool" where
  "counter_inv h c \<longleftrightarrow>
     distinct (map fst c) \<and> set (map fst c) = names_of h \<and>
     (\<forall>n\<in>names_of h. map_of c n = Some (total h n)) \<and>
     sorted_wrt (\<lambda>a b. first_pos h a < first_pos h b) (map fst c)"

definition ranking :: "order_dict list \<Rightarrow> string list" where
  "ranking h = map fst (sort_key (\<lambda>(name, count). - count) (count_orders h []))"

section \<open>The counting loop\<close>

lemma count_orders_append:
  "count_orders (xs @ ys) c = count_orders ys (count_orders xs c)"
  by (induction xs arbitrary: c) (auto simp: Let_def split: option.splits)

lemma keys_counter_add:
  "map fst (counter_add c n q) = (if n \<in> set (map fst c) then map fst c else map fst c @ [n])"
  by (induction c n q rule: counter_add.induct) auto

lemma map_of_counter_add:
  "map_of (counter_add c n q) =
     (map_of c)(n \<mapsto> (case map_of c n of None \<Rightarrow> 0 | Some v \<Rightarrow> v) + q)"
  by (induction c n q rule: counter_add.induct) (auto simp: fun_eq_iff)

lemma names_of_snoc:
  "names_of (h @ [e]) =
     (case d_drinkName e of
        None \<Rightarrow> names_of h
      | Some n \<Rightarrow> if n \<noteq> [] then insert n (names_of h) else names_of h)"
  by (auto simp: names_of_def split: option.splits)

lemma total_snoc:
  "total (h @ [e]) n = total h n + (if d_drinkName e = Some n then qty_of e else 0)"
  by (simp add: total_def)

lemma total_absent:
  "\<not> (\<exists>e\<in>set h. d_drinkName e = Some n) \<Longrightarrow> total h n = 0"
  by (induction h) (auto simp: total_def)

lemma first_pos_old:
  "\<exists>e\<in>set h. d_drinkName e = Some n \<Longrightarrow> first_pos (h @ k) n = first_pos h n"
  by (auto simp: first_pos_def)

lemma first_pos_less:
  "\<exists>e\<in>set h. d_drinkName e = Some n \<Longrightarrow> first_pos h n < length h"
  by (induction h) (auto simp: first_pos_def)

lemma first_pos_new:
  "\<not> (\<exists>e\<in>set h. d_drinkName e = Some n) \<Longrightarrow> d_drinkName e = Some n
   \<Longrightarrow> first_pos (h @ [e]) n = length h"
  by (auto simp: first_pos_def)

lemma counter_inv_count_orders: "counter_inv h (count_orders h [])"
proof (induction h rule: rev_induct)
  case Nil
  show ?case by (simp add: counter_inv_def names_of_def)
next
  case (snoc e h)
  let ?c = "count_orders h []"
  have inv: "counter_inv h ?c" by (rule snoc.IH)
  have mem: "\<And>a. a \<in> names_of h \<Longrightarrow> \<exists>x\<in>set h. d_drinkName x = Some a"
    by (simp add: names_of_def)
  have fp: "\<And>a. a \<in> names_of h \<Longrightarrow> first_pos (h @ [e]) a = first_pos h a"
    using mem first_pos_old by blast
  have sorted_old:
    "sorted_wrt (\<lambda>a b. first_pos (h @ [e]) a < first_pos (h @ [e]) b) (map fst ?c)"
    using inv fp unfolding counter_inv_def
    by (auto elim!: sorted_wrt_mono_rel[rotated])
  show ?case
  proof (cases "\<exists>n. d_drinkName e = Some n \<and> n \<noteq> []")
    case False
    then have step: "count_orders (h @ [e]) [] = ?c"
      by (auto simp: count_orders_append Let_def split: option.splits)
    have nm: "names_of (h @ [e]) = names_of h"
      using False by (auto simp: names_of_snoc split: option.splits)
    have tot: "\<And>n. n \<in> names_of h \<Longrightarrow> total (h @ [e]) n = total h n"
      using False by (auto simp: total_snoc names_of_def)
    show ?thesis
      using inv sorted_old unfolding step counter_inv_def nm
      by (simp add: tot)
  next
    case True
    then obtain n where n: "d_drinkName e = Some n" "n \<noteq> []" by blast
    have step: "count_orders (h @ [e]) [] = counter_add ?c n (qty_of e)"
      using n by (simp add: count_orders_append Let_def qty_of_def)
    have nm: "names_of (h @ [e]) = insert n (names_of h)"
      using n by (simp add: names_of_snoc)
    have keys: "set (map fst ?c) = names_of h" and dist: "distinct (map fst ?c)"
      and vals: "\<And>a. a \<in> names_of h \<Longrightarrow> map_of ?c a = Some (total h a)"
      using inv unfolding counter_inv_def by auto
    show ?thesis
    proof (cases "n \<in> names_of h")
      case True
      have k: "map fst (counter_add ?c n (qty_of e)) = map fst ?c"
        using True keys by (simp add: keys_counter_add)
      have v: "\<forall>a\<in>names_of h.
                 map_of (counter_add ?c n (qty_of e)) a = Some (total (h @ [e]) a)"
        using n vals by (auto simp: map_of_counter_add total_snoc)
      show ?thesis
        unfolding step counter_inv_def k nm
        using True dist keys v sorted_old by (simp add: insert_absorb)
    next
      case False
      have absent: "\<not> (\<exists>x\<in>set h. d_drinkName x = Some n)"
        using False n by (simp add: names_of_def)
      have k: "map fst (counter_add ?c n (qty_of e)) = map fst ?c @ [n]"
        using False keys by (simp add: keys_counter_add)
      have none: "map_of ?c n = None"
        using False keys by (metis map_of_eq_None_iff set_map)
      have v: "\<forall>a\<in>insert n (names_of h).
                 map_of (counter_add ?c n (qty_of e)) a = Some (total (h @ [e]) a)"
        using n vals none False absent
        by (auto simp: map_of_counter_add total_snoc total_absent)
      have fpn: "first_pos (h @ [e]) n = length h"
        using absent n by (simp add: first_pos_new)
      have lt: "\<forall>a\<in>names_of h. first_pos (h @ [e]) a < first_pos (h @ [e]) n"
        using fp fpn mem first_pos_less by simp
      show ?thesis
        unfolding step counter_inv_def k nm
        using False dist keys v sorted_old lt by (simp add: sorted_wrt_append)
    qed
  qed
qed

lemma counter_value:
  assumes "(n, v) \<in> set (count_orders h [])"
  shows "v = total h n"
proof -
  have inv: "counter_inv h (count_orders h [])" by (rule counter_inv_count_orders)
  then have d: "distinct (map fst (count_orders h []))" by (simp add: counter_inv_def)
  have "n \<in> names_of h" using inv assms unfolding counter_inv_def by force
  then have "map_of (count_orders h []) n = Some (total h n)"
    using inv unfolding counter_inv_def by blast
  moreover have "map_of (count_orders h []) n = Some v"
    using d assms by simp
  ultimately show ?thesis by simp
qed

section \<open>The stable sort\<close>

lemma sorted_wrt_insort_key:
  fixes f :: "'a \<Rightarrow> int"
  assumes "sorted_wrt (\<lambda>a b. f a < f b \<or> (f a = f b \<and> Q a b)) ys"
      and "\<forall>y\<in>set ys. Q x y"
  shows "sorted_wrt (\<lambda>a b. f a < f b \<or> (f a = f b \<and> Q a b)) (insort_key f x ys)"
  using assms
proof (induction ys)
  case Nil
  then show ?case by simp
next
  case (Cons y ys)
  show ?case
  proof (cases "f x \<le> f y")
    case True
    have "\<forall>z\<in>set ys. f y \<le> f z" using Cons.prems(1) by auto
    then have "\<forall>z\<in>set (y # ys). f x \<le> f z" using True by auto
    then have "\<forall>z\<in>set (y # ys). f x < f z \<or> (f x = f z \<and> Q x z)"
      using Cons.prems(2) by (auto simp: le_less)
    then show ?thesis using True Cons.prems(1) by simp
  next
    case False
    then show ?thesis using Cons by (auto simp: set_insort_key)
  qed
qed

lemma sorted_wrt_sort_key:
  fixes f :: "'a \<Rightarrow> int"
  assumes "sorted_wrt Q xs"
  shows "sorted_wrt (\<lambda>a b. f a < f b \<or> (f a = f b \<and> Q a b)) (sort_key f xs)"
  using assms
proof (induction xs)
  case Nil
  then show ?case by simp
next
  case (Cons x xs)
  then show ?case by (simp add: sorted_wrt_insort_key)
qed

lemma distinct_keys_insort_key:
  "distinct (map fst (insort_key f x ys)) \<longleftrightarrow>
     fst x \<notin> fst ` set ys \<and> distinct (map fst ys)"
  by (induction ys) (auto simp: set_insort_key)

lemma distinct_keys_sort_key:
  "distinct (map fst (sort_key f xs)) \<longleftrightarrow> distinct (map fst xs)"
  by (induction xs) (auto simp: distinct_keys_insort_key)

section \<open>The ranking\<close>

lemma ranking_sorted: "sorted_wrt (ranks_before h) (ranking h)"
proof -
  let ?c = "count_orders h []"
  let ?f = "\<lambda>(name, count::int). - count"
  let ?Q = "\<lambda>a b. first_pos h (fst a) < first_pos h (fst b)"
  have inv: "counter_inv h ?c" by (rule counter_inv_count_orders)
  then have "sorted_wrt ?Q ?c" by (simp add: counter_inv_def sorted_wrt_map)
  then have s: "sorted_wrt (\<lambda>a b. ?f a < ?f b \<or> (?f a = ?f b \<and> ?Q a b)) (sort_key ?f ?c)"
    by (rule sorted_wrt_sort_key)
  have "sorted_wrt (\<lambda>a b. ranks_before h (fst a) (fst b)) (sort_key ?f ?c)"
  proof (rule sorted_wrt_mono_rel[OF _ s])
    fix a b
    assume a: "a \<in> set (sort_key ?f ?c)" and b: "b \<in> set (sort_key ?f ?c)"
      and r: "?f a < ?f b \<or> (?f a = ?f b \<and> ?Q a b)"
    have "snd a = total h (fst a)" using a counter_value[of "fst a" "snd a" h] by simp
    moreover have "snd b = total h (fst b)" using b counter_value[of "fst b" "snd b" h] by simp
    ultimately show "ranks_before h (fst a) (fst b)"
      using r by (auto simp: ranks_before_def split_beta)
  qed
  then show ?thesis by (simp add: ranking_def sorted_wrt_map)
qed

lemma ranking_distinct: "distinct (ranking h)"
  using counter_inv_count_orders[of h]
  by (simp add: ranking_def distinct_keys_sort_key counter_inv_def)

lemma ranking_set: "set (ranking h) = names_of h"
  using counter_inv_count_orders[of h]
  by (simp add: ranking_def counter_inv_def)

lemma top_is_take:
  "fst (get_top_drinks limit w) = take (nat limit) (ranking (fst (load_orders w)))"
  by (auto simp: get_top_drinks_def ranking_def most_common_def take_map split: prod.splits)

lemma world_after_top:
  "snd (get_top_drinks limit w) = snd (load_orders w)"
  by (simp add: get_top_drinks_def split: prod.splits)

section \<open>Validation\<close>

lemma validate_item_Inl:
  "validate_item d = Inl fs \<Longrightarrow> fs = missing_fields d"
  by (auto simp: validate_item_def split: option.splits)

lemma validate_item_Inr:
  "validate_item d = Inr i \<Longrightarrow> missing_fields d = []"
  by (auto simp: validate_item_def missing_fields_def split: option.splits)

lemma validate_items_Inr:
  "validate_items k raw = Inr items \<Longrightarrow> \<forall>d\<in>set raw. missing_fields d = []"
  by (induction raw arbitrary: k items)
     (auto split: sum.splits dest: validate_item_Inr)

lemma validate_items_Inl:
  "validate_items k raw = Inl errors \<Longrightarrow> j < length raw
   \<Longrightarrow> f \<in> set (missing_fields (raw ! j)) \<Longrightarrow> (k + j, f) \<in> set errors"
proof (induction raw arbitrary: k errors j)
  case Nil
  then show ?case by simp
next
  case (Cons d ds)
  show ?case
  proof (cases j)
    case 0
    then have "missing_fields d \<noteq> []" using Cons.prems by auto
    then obtain fs where "validate_item d = Inl fs"
      using validate_item_Inr by (cases "validate_item d") auto
    then show ?thesis using Cons.prems 0
      by (auto split: sum.splits dest!: validate_item_Inl)
  next
    case (Suc j')
    then have j': "j' < length ds" "f \<in> set (missing_fields (ds ! j'))"
      using Cons.prems by auto
    then have "\<not> (\<forall>d\<in>set ds. missing_fields d = [])"
      by (metis empty_iff list.set(1) nth_mem)
    then obtain es where es: "validate_items (Suc k) ds = Inl es"
      using validate_items_Inr by (cases "validate_items (Suc k) ds") blast+
    have "(Suc k + j', f) \<in> set es" using Cons.IH[OF es j'] .
    then show ?thesis using Cons.prems es Suc
      by (auto split: sum.splits)
  qed
qed

section \<open>Consequences for the result\<close>

lemma ranking_length: "length (ranking h) = card (names_of h)"
  using distinct_card[OF ranking_distinct[of h]] by (simp add: ranking_set)

lemma ranking_cut:
  assumes "a \<in> set (take k (ranking h))" and "b \<in> names_of h - set (take k (ranking h))"
  shows "ranks_before h a b"
proof -
  have "set (take k (ranking h)) \<union> set (drop k (ranking h)) = names_of h"
    by (metis append_take_drop_id ranking_set set_append)
  then have b: "b \<in> set (drop k (ranking h))" using assms(2) by blast
  have "sorted_wrt (ranks_before h) (take k (ranking h) @ drop k (ranking h))"
    by (simp add: ranking_sorted)
  then show ?thesis using assms(1) b unfolding sorted_wrt_append by blast
qed

lemma count_orders_skip:
  "d_drinkName e = None \<or> d_drinkName e = Some [] \<Longrightarrow> count_orders (e # h) c = count_orders h c"
  by (auto simp: Let_def)

lemma count_orders_default:
  "d_quantity e = None \<Longrightarrow> count_orders (e # h) c = count_orders (e\<lparr>d_quantity := Some 1\<rparr> # h) c"
  by (simp add: Let_def)

lemma top_of_file:
  "fst (get_top_drinks limit \<lparr>orders_file = Some h, io_log = l\<rparr>)
     = map fst (most_common limit (count_orders h []))"
  by (cases h) (simp_all add: get_top_drinks_def load_orders_def most_common_def)

section \<open>The claims\<close>

text \<open>
  Claim C1. For every list of valid items: when the relay fails, that is when
  \<^verbatim>\<open>send_to_esp\<close> raises (a status that is not a success, a timeout, a transport
  error), \<^verbatim>\<open>checkout\<close> returns \<^verbatim>\<open>status = "error"\<close> with a message that wraps the
  text of the cause, the content of \<^verbatim>\<open>orders.json\<close> is what it was, so is the history
  read from it, and the only effect is the POST: nothing is written.
\<close>
theorem checkout_relay_failure:
  assumes "fst (send_to_esp (map to_dict items) post w) = Inl e"
  shows "fst (checkout items post w) =
           \<lparr>status = ''error'', message = ''Could not reach robot: '' @ str_exn e, esp = None\<rparr>
       \<and> orders_file (snd (checkout items post w)) = orders_file w
       \<and> fst (load_orders (snd (checkout items post w))) = fst (load_orders w)
       \<and> io_log (snd (checkout items post w)) = io_log w @ [HttpPost (map to_dict items)]"
  using assms
  by (auto simp: checkout_def send_to_esp_def load_orders_def Let_def
           split: post_outcome.splits if_splits body.splits option.splits)

theorem checkout_relay_failure_witness:
  "fst (send_to_esp
          (map to_dict [\<lparr>drinkId = ''d1'', drinkName = ''Mojito'', quantity = 2, calories = 90\<rparr>])
          (\<lambda>items. PostReturns \<lparr>status_code = 503, status_error = ''Server error'', content = NotJson []\<rparr>)
          \<lparr>orders_file = Some [], io_log = []\<rparr>)
     = Inl (HTTPStatusError 503 ''Server error'')
   \<and> fst (checkout [\<lparr>drinkId = ''d1'', drinkName = ''Mojito'', quantity = 2, calories = 90\<rparr>]
          (\<lambda>items. PostReturns \<lparr>status_code = 503, status_error = ''Server error'', content = NotJson []\<rparr>)
          \<lparr>orders_file = Some [], io_log = []\<rparr>)
     = \<lparr>status = ''error'', message = ''Could not reach robot: Server error'', esp = None\<rparr>
   \<and> orders_file (snd (checkout [\<lparr>drinkId = ''d1'', drinkName = ''Mojito'', quantity = 2, calories = 90\<rparr>]
          (\<lambda>items. PostReturns \<lparr>status_code = 503, status_error = ''Server error'', content = NotJson []\<rparr>)
          \<lparr>orders_file = Some [], io_log = []\<rparr>)) = Some []"
proof -
  have h: "fst (send_to_esp
          (map to_dict [\<lparr>drinkId = ''d1'', drinkName = ''Mojito'', quantity = 2, calories = 90\<rparr>])
          (\<lambda>items. PostReturns \<lparr>status_code = 503, status_error = ''Server error'', content = NotJson []\<rparr>)
          \<lparr>orders_file = Some [], io_log = []\<rparr>)
     = Inl (HTTPStatusError 503 ''Server error'')"
    by (simp add: send_to_esp_def is_success_def)
  show ?thesis using h checkout_relay_failure [OF h] by simp
qed

text \<open>
  Claim C2. For every list of valid items: when the relay succeeds, that is when
  \<^verbatim>\<open>send_to_esp\<close> returns a reply, the history after \<^verbatim>\<open>checkout\<close> is the history
  before it followed by the dictionaries of those items, in the order given.
\<close>
theorem checkout_relay_success:
  assumes "fst (send_to_esp (map to_dict items) post w) = Inr reply"
  shows "fst (load_orders (snd (checkout items post w))) = fst (load_orders w) @ map to_dict items
       \<and> orders_file (snd (checkout items post w)) = Some (fst (load_orders w) @ map to_dict items)
       \<and> fst (checkout items post w) =
           \<lparr>status = ''ok'', message = ''Order sent to robot and saved!'', esp = Some reply\<rparr>"
  using assms
  by (auto simp: checkout_def send_to_esp_def load_orders_def save_orders_def Let_def
           split: post_outcome.splits if_splits body.splits option.splits)

theorem checkout_relay_success_witness:
  "fst (send_to_esp
          (map to_dict [\<lparr>drinkId = ''d1'', drinkName = ''Mojito'', quantity = 2, calories = 90\<rparr>,
                        \<lparr>drinkId = ''d2'', drinkName = ''Colada'', quantity = 1, calories = 120\<rparr>])
          (\<lambda>items. PostReturns \<lparr>status_code = 200, status_error = [], content = JsonBody (JObj [(''ok'', JBool True)])\<rparr>)
          \<lparr>orders_file = Some [\<lparr>d_drinkId = Some ''d0'', d_drinkName = Some ''Spritz'', d_quantity = Some 1, d_calories = Some 70\<rparr>], io_log = []\<rparr>)
     = Inr (JObj [(''ok'', JBool True)])
   \<and> fst (load_orders (snd (checkout
          [\<lparr>drinkId = ''d1'', drinkName = ''Mojito'', quantity = 2, calories = 90\<rparr>,
           \<lparr>drinkId = ''d2'', drinkName = ''Colada'', quantity = 1, calories = 120\<rparr>]
          (\<lambda>items. PostReturns \<lparr>status_code = 200, status_error = [], content = JsonBody (JObj [(''ok'', JBool True)])\<rparr>)
          \<lparr>orders_file = Some [\<lparr>d_drinkId = Some ''d0'', d_drinkName = Some ''Spritz'', d_quantity = Some 1, d_calories = Some 70\<rparr>], io_log = []\<rparr>)))
     = [\<lparr>d_drinkId = Some ''d0'', d_drinkName = Some ''Spritz'', d_quantity = Some 1, d_calories = Some 70\<rparr>,
        \<lparr>d_drinkId = Some ''d1'', d_drinkName = Some ''Mojito'', d_quantity = Some 2, d_calories = Some 90\<rparr>,
        \<lparr>d_drinkId = Some ''d2'', d_drinkName = Some ''Colada'', d_quantity = Some 1, d_calories = Some 120\<rparr>]"
proof -
  have h: "fst (send_to_esp
          (map to_dict [\<lparr>drinkId = ''d1'', drinkName = ''Mojito'', quantity = 2, calories = 90\<rparr>,
                        \<lparr>drinkId = ''d2'', drinkName = ''Colada'', quantity = 1, calories = 120\<rparr>])
          (\<lambda>items. PostReturns \<lparr>status_code = 200, status_error = [], content = JsonBody (JObj [(''ok'', JBool True)])\<rparr>)
          \<lparr>orders_file = Some [\<lparr>d_drinkId = Some ''d0'', d_drinkName = Some ''Spritz'', d_quantity = Some 1, d_calories = Some 70\<rparr>], io_log = []\<rparr>)
     = Inr (JObj [(''ok'', JBool True)])"
    by (simp add: send_to_esp_def is_success_def)
  show ?thesis using h checkout_relay_success [OF h]
    by (simp add: load_orders_def to_dict_def)
qed

text \<open>
  Claim C3. For every history and limit: the counter \<^verbatim>\<open>get_top_drinks\<close> builds has one
  key per name of the history (a name that is present and not empty) and holds under it
  the sum of the quantities of the entries bearing the name; the result has no name twice,
  has as many names as the limit allows and the history has, is sorted by decreasing
  accumulated quantity with ties in the order of the first occurrence in the history, and
  every name left out ranks after every name returned. For the history
  [B with quantity 2, A with quantity 2] and the limit 1 the result is [B].
\<close>

theorem top_drinks_ranking:
  fixes w :: world and limit :: int
  defines "h \<equiv> fst (load_orders w)"
  defines "r \<equiv> fst (get_top_drinks limit w)"
  shows "set (map fst (count_orders h [])) = names_of h
       \<and> (\<forall>n\<in>names_of h. map_of (count_orders h []) n = Some (total h n))
       \<and> distinct r \<and> set r \<subseteq> names_of h
       \<and> length r = min (nat limit) (card (names_of h))
       \<and> sorted_wrt (ranks_before h) r
       \<and> (\<forall>a\<in>set r. \<forall>b\<in>names_of h - set r. ranks_before h a b)
       \<and> fst (get_top_drinks 1
              \<lparr>orders_file = Some
                 [\<lparr>d_drinkId = i1, d_drinkName = Some ''B'', d_quantity = Some 2, d_calories = c1\<rparr>,
                  \<lparr>d_drinkId = i2, d_drinkName = Some ''A'', d_quantity = Some 2, d_calories = c2\<rparr>],
               io_log = l\<rparr>) = [''B'']"
proof -
  have r: "r = take (nat limit) (ranking h)"
    unfolding r_def h_def by (rule top_is_take)
  have inv: "counter_inv h (count_orders h [])" by (rule counter_inv_count_orders)
  have 1: "set (map fst (count_orders h [])) = names_of h"
    using inv by (simp add: counter_inv_def)
  have 2: "\<forall>n\<in>names_of h. map_of (count_orders h []) n = Some (total h n)"
    using inv by (simp add: counter_inv_def)
  have 3: "distinct r" unfolding r by (simp add: ranking_distinct)
  have 4: "set r \<subseteq> names_of h" unfolding r using set_take_subset[of "nat limit" "ranking h"]
    by (simp add: ranking_set)
  have 5: "length r = min (nat limit) (card (names_of h))"
    unfolding r by (simp add: ranking_length min.commute)
  have 6: "sorted_wrt (ranks_before h) r" unfolding r by (simp add: ranking_sorted)
  have 7: "\<forall>a\<in>set r. \<forall>b\<in>names_of h - set r. ranks_before h a b"
    unfolding r using ranking_cut by blast
  have 8: "fst (get_top_drinks 1
              \<lparr>orders_file = Some
                 [\<lparr>d_drinkId = i1, d_drinkName = Some ''B'', d_quantity = Some 2, d_calories = c1\<rparr>,
                  \<lparr>d_drinkId = i2, d_drinkName = Some ''A'', d_quantity = Some 2, d_calories = c2\<rparr>],
               io_log = l\<rparr>) = [''B'']"
    by (simp add: get_top_drinks_def load_orders_def most_common_def)
  show ?thesis using 1 2 3 4 5 6 7 8 by blast
qed

theorem top_drinks_ranking_witness:
  "fst (get_top_drinks 3
      \<lparr>orders_file = Some
         [\<lparr>d_drinkId = Some ''a'', d_drinkName = Some ''A'', d_quantity = Some 2, d_calories = Some 90\<rparr>,
          \<lparr>d_drinkId = Some ''b'', d_drinkName = Some ''B'', d_quantity = Some 1, d_calories = Some 70\<rparr>,
          \<lparr>d_drinkId = Some ''a'', d_drinkName = Some ''A'', d_quantity = Some 1, d_calories = Some 90\<rparr>],
       io_log = []\<rparr>) = [''A'', ''B'']
   \<and> ranks_before
         [\<lparr>d_drinkId = Some ''a'', d_drinkName = Some ''A'', d_quantity = Some 2, d_calories = Some 90\<rparr>,
          \<lparr>d_drinkId = Some ''b'', d_drinkName = Some ''B'', d_quantity = Some 1, d_calories = Some 70\<rparr>,
          \<lparr>d_drinkId = Some ''a'', d_drinkName = Some ''A'', d_quantity = Some 1, d_calories = Some 90\<rparr>]
         ''A'' ''B''
   \<and> ''A'' \<in> names_of
         [\<lparr>d_drinkId = Some ''a'', d_drinkName = Some ''A'', d_quantity = Some 2, d_calories = Some 90\<rparr>,
          \<lparr>d_drinkId = Some ''b'', d_drinkName = Some ''B'', d_quantity = Some 1, d_calories = Some 70\<rparr>,
          \<lparr>d_drinkId = Some ''a'', d_drinkName = Some ''A'', d_quantity = Some 1, d_calories = Some 90\<rparr>]
   \<and> map_of (count_orders
         [\<lparr>d_drinkId = Some ''a'', d_drinkName = Some ''A'', d_quantity = Some 2, d_calories = Some 90\<rparr>,
          \<lparr>d_drinkId = Some ''b'', d_drinkName = Some ''B'', d_quantity = Some 1, d_calories = Some 70\<rparr>,
          \<lparr>d_drinkId = Some ''a'', d_drinkName = Some ''A'', d_quantity = Some 1, d_calories = Some 90\<rparr>] [])
        ''A'' = Some 3"
proof -
  let ?h = "[\<lparr>d_drinkId = Some ''a'', d_drinkName = Some ''A'', d_quantity = Some 2, d_calories = Some 90\<rparr>,
          \<lparr>d_drinkId = Some ''b'', d_drinkName = Some ''B'', d_quantity = Some 1, d_calories = Some 70\<rparr>,
          \<lparr>d_drinkId = Some ''a'', d_drinkName = Some ''A'', d_quantity = Some 1, d_calories = Some 90\<rparr>]"
  let ?w = "\<lparr>orders_file = Some ?h, io_log = []\<rparr>"
  have h: "fst (load_orders ?w) = ?h" by (simp add: load_orders_def)
  have r: "fst (get_top_drinks 3 ?w) = [''A'', ''B'']"
    by (simp add: get_top_drinks_def load_orders_def most_common_def)
  have n: "''A'' \<in> names_of ?h" by (simp add: names_of_def)
  have t: "total ?h ''A'' = 3" by (simp add: total_def qty_of_def)
  note inst = top_drinks_ranking [of ?w 3, unfolded h r]
  from inst have "sorted_wrt (ranks_before ?h) [''A'', ''B'']" by blast
  then have rb: "ranks_before ?h ''A'' ''B''" by simp
  from inst n have "map_of (count_orders ?h []) ''A'' = Some (total ?h ''A'')" by blast
  then have "map_of (count_orders ?h []) ''A'' = Some 3" unfolding t .
  with r rb n show ?thesis by blast
qed

text \<open>
  Claim C4, amended. For every outcome of the POST: an exception of the client (a timeout,
  a transport error), a status outside 200..299, and also a status in 200..299 whose body
  is not JSON, all make \<^verbatim>\<open>send_to_esp\<close> raise, and \<^verbatim>\<open>checkout\<close> answers each of them
  with \<^verbatim>\<open>status = "error"\<close> and the text of the cause after
  \<^verbatim>\<open>"Could not reach robot: "\<close>; on a status in 200..299 with a JSON body the decoded
  reply is returned unchanged under \<^verbatim>\<open>esp\<close> in the ok result.
\<close>

theorem relay_outcome_classification:
  "(post (map to_dict items) = PostRaises e \<longrightarrow>
      fst (send_to_esp (map to_dict items) post w) = Inl e
    \<and> fst (checkout items post w) =
        \<lparr>status = ''error'', message = ''Could not reach robot: '' @ str_exn e, esp = None\<rparr>)
   \<and> (post (map to_dict items) = PostReturns r \<and> \<not> is_success r \<longrightarrow>
      fst (send_to_esp (map to_dict items) post w)
        = Inl (HTTPStatusError (status_code r) (status_error r))
    \<and> fst (checkout items post w) =
        \<lparr>status = ''error'', message = ''Could not reach robot: '' @ status_error r, esp = None\<rparr>)
   \<and> (post (map to_dict items) = PostReturns r \<and> is_success r \<and> content r = NotJson m \<longrightarrow>
      fst (send_to_esp (map to_dict items) post w) = Inl (JSONDecodeError m)
    \<and> fst (checkout items post w) =
        \<lparr>status = ''error'', message = ''Could not reach robot: '' @ m, esp = None\<rparr>)
   \<and> (post (map to_dict items) = PostReturns r \<and> is_success r \<and> content r = JsonBody j \<longrightarrow>
      fst (send_to_esp (map to_dict items) post w) = Inr j
    \<and> fst (checkout items post w) =
        \<lparr>status = ''ok'', message = ''Order sent to robot and saved!'', esp = Some j\<rparr>)"
  by (auto simp: checkout_def send_to_esp_def load_orders_def Let_def split: option.splits)

theorem relay_outcome_classification_witness:
  "fst (checkout [\<lparr>drinkId = ''d1'', drinkName = ''Mojito'', quantity = 2, calories = 90\<rparr>]
          (\<lambda>items. PostRaises (TimeoutException ''timed out''))
          \<lparr>orders_file = None, io_log = []\<rparr>)
     = \<lparr>status = ''error'', message = ''Could not reach robot: timed out'', esp = None\<rparr>
   \<and> fst (checkout [\<lparr>drinkId = ''d1'', drinkName = ''Mojito'', quantity = 2, calories = 90\<rparr>]
          (\<lambda>items. PostReturns \<lparr>status_code = 404, status_error = ''Client error'', content = NotJson []\<rparr>)
          \<lparr>orders_file = None, io_log = []\<rparr>)
     = \<lparr>status = ''error'', message = ''Could not reach robot: Client error'', esp = None\<rparr>
   \<and> fst (checkout [\<lparr>drinkId = ''d1'', drinkName = ''Mojito'', quantity = 2, calories = 90\<rparr>]
          (\<lambda>items. PostReturns \<lparr>status_code = 200, status_error = [], content = NotJson ''Expecting value''\<rparr>)
          \<lparr>orders_file = None, io_log = []\<rparr>)
     = \<lparr>status = ''error'', message = ''Could not reach robot: Expecting value'', esp = None\<rparr>
   \<and> fst (checkout [\<lparr>drinkId = ''d1'', drinkName = ''Mojito'', quantity = 2, calories = 90\<rparr>]
          (\<lambda>items. PostReturns \<lparr>status_code = 200, status_error = [], content = JsonBody (JStr ''pouring'')\<rparr>)
          \<lparr>orders_file = None, io_log = []\<rparr>)
     = \<lparr>status = ''ok'', message = ''Order sent to robot and saved!'', esp = Some (JStr ''pouring'')\<rparr>"
proof -
  let ?items = "[\<lparr>drinkId = ''d1'', drinkName = ''Mojito'', quantity = 2, calories = 90\<rparr>]"
  let ?w = "\<lparr>orders_file = None, io_log = []\<rparr>"
  let ?r404 = "\<lparr>status_code = 404, status_error = ''Client error'', content = NotJson []\<rparr>"
  let ?rtxt = "\<lparr>status_code = 200, status_error = [], content = NotJson ''Expecting value''\<rparr>"
  let ?rok = "\<lparr>status_code = 200, status_error = [], content = JsonBody (JStr ''pouring'')\<rparr>"
  have s404: "\<not> is_success ?r404" by (simp add: is_success_def)
  have stxt: "is_success ?rtxt \<and> content ?rtxt = NotJson ''Expecting value''"
    by (simp add: is_success_def)
  have sok: "is_success ?rok \<and> content ?rok = JsonBody (JStr ''pouring'')"
    by (simp add: is_success_def)
  from relay_outcome_classification
         [of "\<lambda>items. PostRaises (TimeoutException ''timed out'')" ?items
             "TimeoutException ''timed out''" ?w]
  have 1: "fst (checkout ?items (\<lambda>items. PostRaises (TimeoutException ''timed out'')) ?w)
     = \<lparr>status = ''error'', message = ''Could not reach robot: timed out'', esp = None\<rparr>"
    by simp
  from relay_outcome_classification [of "\<lambda>items. PostReturns ?r404" ?items _ ?w ?r404] s404
  have 2: "fst (checkout ?items (\<lambda>items. PostReturns ?r404) ?w)
     = \<lparr>status = ''error'', message = ''Could not reach robot: Client error'', esp = None\<rparr>"
    by simp
  from relay_outcome_classification
         [of "\<lambda>items. PostReturns ?rtxt" ?items _ ?w ?rtxt "''Expecting value''"] stxt
  have 3: "fst (checkout ?items (\<lambda>items. PostReturns ?rtxt) ?w)
     = \<lparr>status = ''error'', message = ''Could not reach robot: Expecting value'', esp = None\<rparr>"
    by simp
  from relay_outcome_classification
         [of "\<lambda>items. PostReturns ?rok" ?items _ ?w ?rok _ "JStr ''pouring''"] sok
  have 4: "fst (checkout ?items (\<lambda>items. PostReturns ?rok) ?w)
     = \<lparr>status = ''ok'', message = ''Order sent to robot and saved!'', esp = Some (JStr ''pouring'')\<rparr>"
    by simp
  from 1 2 3 4 show ?thesis by blast
qed

text \<open>
  The claim as it was stated fails on a 2xx response whose body is not JSON: the reply is
  not returned, the answer is an error, and nothing is recorded.
\<close>

theorem relay_success_status_not_json:
  "status (fst (checkout [\<lparr>drinkId = ''d1'', drinkName = ''Mojito'', quantity = 2, calories = 90\<rparr>]
          (\<lambda>items. PostReturns \<lparr>status_code = 200, status_error = [], content = NotJson ''Expecting value''\<rparr>)
          \<lparr>orders_file = None, io_log = []\<rparr>)) = ''error''
   \<and> esp (fst (checkout [\<lparr>drinkId = ''d1'', drinkName = ''Mojito'', quantity = 2, calories = 90\<rparr>]
          (\<lambda>items. PostReturns \<lparr>status_code = 200, status_error = [], content = NotJson ''Expecting value''\<rparr>)
          \<lparr>orders_file = None, io_log = []\<rparr>)) = None
   \<and> orders_file (snd (checkout [\<lparr>drinkId = ''d1'', drinkName = ''Mojito'', quantity = 2, calories = 90\<rparr>]
          (\<lambda>items. PostReturns \<lparr>status_code = 200, status_error = [], content = NotJson ''Expecting value''\<rparr>)
          \<lparr>orders_file = None, io_log = []\<rparr>)) = None"
  by (simp add: checkout_def send_to_esp_def is_success_def)

text \<open>
  Claim C5, amended. For every request body in which some item lacks a required field
  (\<^verbatim>\<open>drinkName\<close> or another), the request is rejected by the validation of
  \<^verbatim>\<open>List[OrderItem]\<close> before the body of \<^verbatim>\<open>checkout\<close> runs: the answer is the
  validation error, which names the item and the field, and the environment is untouched,
  so the relay is not called and nothing is persisted.
\<close>

theorem invalid_item_rejected:
  assumes "k < length raw" and "f \<in> set (missing_fields (raw ! k))"
  shows "\<exists>errors. checkout_endpoint raw post w = (Unprocessable errors, w) \<and> (k, f) \<in> set errors"
proof -
  have "\<not> (\<forall>d\<in>set raw. missing_fields d = [])"
    using assms by (metis empty_iff list.set(1) nth_mem)
  then obtain es where es: "validate_items 0 raw = Inl es"
    using validate_items_Inr by (cases "validate_items 0 raw") blast+
  have "(0 + k, f) \<in> set es" using validate_items_Inl[OF es assms] .
  then show ?thesis using es by (simp add: checkout_endpoint_def)
qed

theorem invalid_item_rejected_witness:
  "(1::nat) < length
      [\<lparr>d_drinkId = Some ''d1'', d_drinkName = Some ''Mojito'', d_quantity = Some 2, d_calories = Some 90\<rparr>,
       \<lparr>d_drinkId = Some ''d2'', d_drinkName = None, d_quantity = Some 1, d_calories = Some 120\<rparr>]
   \<and> ''drinkName'' \<in> set (missing_fields
      ([\<lparr>d_drinkId = Some ''d1'', d_drinkName = Some ''Mojito'', d_quantity = Some 2, d_calories = Some 90\<rparr>,
        \<lparr>d_drinkId = Some ''d2'', d_drinkName = None, d_quantity = Some 1, d_calories = Some 120\<rparr>] ! 1))
   \<and> (\<exists>errors. checkout_endpoint
      [\<lparr>d_drinkId = Some ''d1'', d_drinkName = Some ''Mojito'', d_quantity = Some 2, d_calories = Some 90\<rparr>,
       \<lparr>d_drinkId = Some ''d2'', d_drinkName = None, d_quantity = Some 1, d_calories = Some 120\<rparr>]
      (\<lambda>items. PostReturns \<lparr>status_code = 200, status_error = [], content = JsonBody JNull\<rparr>)
      \<lparr>orders_file = Some [], io_log = []\<rparr>
     = (Unprocessable errors, \<lparr>orders_file = Some [], io_log = []\<rparr>) \<and> (1, ''drinkName'') \<in> set errors)"
proof -
  let ?raw = "[\<lparr>d_drinkId = Some ''d1'', d_drinkName = Some ''Mojito'', d_quantity = Some 2, d_calories = Some 90\<rparr>,
       \<lparr>d_drinkId = Some ''d2'', d_drinkName = None, d_quantity = Some 1, d_calories = Some 120\<rparr>]"
  have k: "(1::nat) < length ?raw" by simp
  have f: "''drinkName'' \<in> set (missing_fields (?raw ! 1))" by (simp add: missing_fields_def)
  from k f invalid_item_rejected [OF k f] show ?thesis by blast
qed

text \<open>
  The claim as it was stated fails on the shape of the answer: for an item without
  \<^verbatim>\<open>drinkName\<close> it is the validation error of the framework, not a dictionary with
  \<^verbatim>\<open>"status": "error"\<close> and a message.
\<close>

theorem invalid_item_not_error_reply:
  "fst (checkout_endpoint
      [\<lparr>d_drinkId = Some ''d1'', d_drinkName = None, d_quantity = Some 1, d_calories = Some 90\<rparr>]
      (\<lambda>items. PostReturns \<lparr>status_code = 200, status_error = [], content = JsonBody JNull\<rparr>)
      \<lparr>orders_file = None, io_log = []\<rparr>) = Unprocessable [(0, ''drinkName'')]
   \<and> \<not> is_error_reply (fst (checkout_endpoint
      [\<lparr>d_drinkId = Some ''d1'', d_drinkName = None, d_quantity = Some 1, d_calories = Some 90\<rparr>]
      (\<lambda>items. PostReturns \<lparr>status_code = 200, status_error = [], content = JsonBody JNull\<rparr>)
      \<lparr>orders_file = None, io_log = []\<rparr>))"
  by (simp add: checkout_endpoint_def validate_item_def missing_fields_def)

text \<open>
  Claim C6. \<^verbatim>\<open>load_orders\<close> returns the empty list while \<^verbatim>\<open>orders.json\<close> does not
  exist, and appending (load, extend, save, as \<^verbatim>\<open>checkout\<close> does) and loading again
  returns the history before followed by the appended items.
\<close>
theorem store_round_trip:
  "fst (load_orders \<lparr>orders_file = None, io_log = l\<rparr>) = []
   \<and> fst (load_orders (save_orders (fst (load_orders w) @ items) (snd (load_orders w))))
       = fst (load_orders w) @ items"
  by (simp add: load_orders_def save_orders_def split: option.splits)

text \<open>
  Claim C7, amended. \<^verbatim>\<open>get_top_drinks\<close> reads the history from \<^verbatim>\<open>orders.json\<close> (the
  existence test, and the read when the file exists), and that is all its I/O: it writes
  nothing and posts nothing, the content of the file is unchanged, its result depends on
  the history read and the limit only, and computing it twice gives the same result.
\<close>

theorem top_drinks_only_reads:
  "snd (get_top_drinks limit w) =
     w\<lparr>io_log := io_log w @ (if orders_file w = None then [FileExists] else [FileExists, FileRead])\<rparr>
   \<and> orders_file (snd (get_top_drinks limit w)) = orders_file w
   \<and> (fst (load_orders w) = fst (load_orders w')
        \<longrightarrow> fst (get_top_drinks limit w) = fst (get_top_drinks limit w'))
   \<and> fst (get_top_drinks limit (snd (get_top_drinks limit w))) = fst (get_top_drinks limit w)"
proof -
  have 1: "snd (get_top_drinks limit w) =
     w\<lparr>io_log := io_log w @ (if orders_file w = None then [FileExists] else [FileExists, FileRead])\<rparr>"
    by (simp add: world_after_top load_orders_def split: option.splits)
  have 2: "orders_file (snd (get_top_drinks limit w)) = orders_file w"
    by (simp add: 1)
  have 3: "fst (load_orders w) = fst (load_orders w')
        \<longrightarrow> fst (get_top_drinks limit w) = fst (get_top_drinks limit w')"
    by (simp add: top_is_take)
  have "fst (load_orders (snd (get_top_drinks limit w))) = fst (load_orders w)"
    by (simp add: 1 load_orders_def split: option.splits)
  then have 4: "fst (get_top_drinks limit (snd (get_top_drinks limit w))) = fst (get_top_drinks limit w)"
    by (simp add: top_is_take)
  show ?thesis using 1 2 3 4 by blast
qed

theorem top_drinks_only_reads_witness:
  "fst (load_orders \<lparr>orders_file = None, io_log = []\<rparr>)
     = fst (load_orders \<lparr>orders_file = Some [], io_log = [FileExists]\<rparr>)
   \<and> fst (get_top_drinks 3 \<lparr>orders_file = None, io_log = []\<rparr>)
     = fst (get_top_drinks 3 \<lparr>orders_file = Some [], io_log = [FileExists]\<rparr>)"
proof -
  have h: "fst (load_orders \<lparr>orders_file = None, io_log = []\<rparr>)
     = fst (load_orders \<lparr>orders_file = Some [], io_log = [FileExists]\<rparr>)"
    by (simp add: load_orders_def)
  from top_drinks_only_reads
         [of 3 "\<lparr>orders_file = None, io_log = []\<rparr>" "\<lparr>orders_file = Some [], io_log = [FileExists]\<rparr>"] h
  show ?thesis by blast
qed

text \<open>
  The claim as it was stated fails on "no I/O": each call tests for the file and reads it.
\<close>

theorem top_drinks_reads_file:
  "io_log (snd (get_top_drinks 3
      \<lparr>orders_file = Some
         [\<lparr>d_drinkId = Some ''a'', d_drinkName = Some ''A'', d_quantity = Some 2, d_calories = Some 90\<rparr>],
       io_log = []\<rparr>)) = [FileExists, FileRead]
   \<and> io_log (snd (get_top_drinks 3
      \<lparr>orders_file = Some
         [\<lparr>d_drinkId = Some ''a'', d_drinkName = Some ''A'', d_quantity = Some 2, d_calories = Some 90\<rparr>],
       io_log = []\<rparr>)) \<noteq> []"
  by (simp add: get_top_drinks_def load_orders_def)

text \<open>
  Claim C8. For every limit, \<^verbatim>\<open>get_top_drinks\<close> returns the empty list when the
  history is empty (no file, or a file holding the empty array).
\<close>
theorem top_drinks_empty_history:
  assumes "fst (load_orders w) = []"
  shows "fst (get_top_drinks n w) = []"
  using assms by (auto simp: get_top_drinks_def split: prod.splits)

theorem top_drinks_empty_history_witness:
  "fst (load_orders \<lparr>orders_file = None, io_log = []\<rparr>) = []
   \<and> fst (get_top_drinks 3 \<lparr>orders_file = None, io_log = []\<rparr>) = []
   \<and> fst (load_orders \<lparr>orders_file = Some [], io_log = []\<rparr>) = []
   \<and> fst (get_top_drinks (- 2) \<lparr>orders_file = Some [], io_log = []\<rparr>) = []"
proof -
  have h1: "fst (load_orders \<lparr>orders_file = None, io_log = []\<rparr>) = []"
    by (simp add: load_orders_def)
  have h2: "fst (load_orders \<lparr>orders_file = Some [], io_log = []\<rparr>) = []"
    by (simp add: load_orders_def)
  show ?thesis
    using h1 h2 top_drinks_empty_history [OF h1, of 3] top_drinks_empty_history [OF h2, of "- 2"]
    by simp
qed

text \<open>
  Claim C9. For every history and limit, the result of \<^verbatim>\<open>get_top_drinks\<close> has at most
  as many names as the limit (no name for a limit below zero); \<^verbatim>\<open>recommendations\<close>
  shows either the paragraph saying that no order has been placed yet or a list of one to
  three names, and it shows the paragraph when the history is empty.
\<close>

theorem top_drinks_length_bound:
  "length (fst (get_top_drinks limit w)) \<le> nat limit
   \<and> (case fst (recommendations w) of
        NoOrdersYet \<Rightarrow> True
      | DrinkList names \<Rightarrow> names \<noteq> [] \<and> length names \<le> 3)
   \<and> (fst (load_orders w) = [] \<longrightarrow> fst (recommendations w) = NoOrdersYet)"
proof -
  have 1: "length (fst (get_top_drinks limit w)) \<le> nat limit" for limit
    by (simp add: top_is_take)
  have 2: "(case fst (recommendations w) of
        NoOrdersYet \<Rightarrow> True
      | DrinkList names \<Rightarrow> names \<noteq> [] \<and> length names \<le> 3)"
    using 1[of 3] by (auto simp: recommendations_def split: prod.splits)
  have 3: "fst (load_orders w) = [] \<longrightarrow> fst (recommendations w) = NoOrdersYet"
    by (auto simp: recommendations_def get_top_drinks_def split: prod.splits)
  show ?thesis using 1 2 3 by blast
qed

theorem top_drinks_length_bound_witness:
  "fst (load_orders \<lparr>orders_file = None, io_log = []\<rparr>) = []
   \<and> fst (recommendations \<lparr>orders_file = None, io_log = []\<rparr>) = NoOrdersYet
   \<and> fst (recommendations
        \<lparr>orders_file = Some
           [\<lparr>d_drinkId = Some ''a'', d_drinkName = Some ''A'', d_quantity = Some 1, d_calories = Some 90\<rparr>,
            \<lparr>d_drinkId = Some ''b'', d_drinkName = Some ''B'', d_quantity = Some 4, d_calories = Some 70\<rparr>,
            \<lparr>d_drinkId = Some ''c'', d_drinkName = Some ''C'', d_quantity = Some 2, d_calories = Some 50\<rparr>,
            \<lparr>d_drinkId = Some ''d'', d_drinkName = Some ''D'', d_quantity = Some 3, d_calories = Some 30\<rparr>],
         io_log = []\<rparr>) = DrinkList [''B'', ''D'', ''C'']
   \<and> length [''B'', ''D'', ''C''] \<le> (3::nat)"
proof -
  let ?w0 = "\<lparr>orders_file = None, io_log = []\<rparr>"
  let ?w1 = "\<lparr>orders_file = Some
           [\<lparr>d_drinkId = Some ''a'', d_drinkName = Some ''A'', d_quantity = Some 1, d_calories = Some 90\<rparr>,
            \<lparr>d_drinkId = Some ''b'', d_drinkName = Some ''B'', d_quantity = Some 4, d_calories = Some 70\<rparr>,
            \<lparr>d_drinkId = Some ''c'', d_drinkName = Some ''C'', d_quantity = Some 2, d_calories = Some 50\<rparr>,
            \<lparr>d_drinkId = Some ''d'', d_drinkName = Some ''D'', d_quantity = Some 3, d_calories = Some 30\<rparr>],
         io_log = []\<rparr>"
  have h: "fst (load_orders ?w0) = []" by (simp add: load_orders_def)
  have r: "fst (recommendations ?w1) = DrinkList [''B'', ''D'', ''C'']"
    by (simp add: recommendations_def get_top_drinks_def load_orders_def most_common_def)
  from top_drinks_length_bound [of 3 ?w0] h
  have a: "fst (recommendations ?w0) = NoOrdersYet" by blast
  from top_drinks_length_bound [of 3 ?w1]
  have "case fst (recommendations ?w1) of NoOrdersYet \<Rightarrow> True
        | DrinkList names \<Rightarrow> names \<noteq> [] \<and> length names \<le> 3" by blast
  then have b: "length [''B'', ''D'', ''C''] \<le> (3::nat)" unfolding r by simp
  from h a r b show ?thesis by blast
qed

text \<open>
  Claim C10. An entry whose \<^verbatim>\<open>drinkName\<close> is absent or empty changes neither the
  counter nor the result, wherever it stands in the history, and the empty name is never
  in the result; an entry whose \<^verbatim>\<open>quantity\<close> is absent counts as the same entry with
  quantity 1, and adds 1 to the accumulated quantity of its name.
\<close>

theorem top_drinks_missing_fields:
  "(d_drinkName e = None \<or> d_drinkName e = Some [] \<longrightarrow>
      count_orders (h1 @ e # h2) c = count_orders (h1 @ h2) c
    \<and> fst (get_top_drinks limit \<lparr>orders_file = Some (h1 @ e # h2), io_log = l\<rparr>)
        = fst (get_top_drinks limit \<lparr>orders_file = Some (h1 @ h2), io_log = l\<rparr>))
   \<and> [] \<notin> set (fst (get_top_drinks limit w))
   \<and> (d_quantity e = None \<longrightarrow>
      count_orders (h1 @ e # h2) c = count_orders (h1 @ e\<lparr>d_quantity := Some 1\<rparr> # h2) c
    \<and> fst (get_top_drinks limit \<lparr>orders_file = Some (h1 @ e # h2), io_log = l\<rparr>)
        = fst (get_top_drinks limit
                 \<lparr>orders_file = Some (h1 @ e\<lparr>d_quantity := Some 1\<rparr> # h2), io_log = l\<rparr>))
   \<and> (d_quantity e = None \<and> d_drinkName e = Some n \<and> n \<noteq> [] \<longrightarrow>
      map_of (count_orders (h1 @ [e]) []) n = Some (total h1 n + 1))"
proof -
  have a: "count_orders (h1 @ e # h2) c = count_orders (h1 @ h2) c"
    if "d_drinkName e = None \<or> d_drinkName e = Some []" for c
    using that by (simp only: count_orders_append count_orders_skip)
  have b: "count_orders (h1 @ e # h2) c = count_orders (h1 @ e\<lparr>d_quantity := Some 1\<rparr> # h2) c"
    if "d_quantity e = None" for c
    using that count_orders_default[of e h2 "count_orders h1 c"]
    by (simp only: count_orders_append)
  have "set (fst (get_top_drinks limit w)) \<subseteq> names_of (fst (load_orders w))"
    unfolding top_is_take
    using set_take_subset[of "nat limit" "ranking (fst (load_orders w))"]
    by (simp add: ranking_set)
  then have d: "[] \<notin> set (fst (get_top_drinks limit w))"
    by (auto simp: names_of_def)
  have t: "map_of (count_orders (h1 @ [e]) []) n = Some (total h1 n + 1)"
    if "d_quantity e = None" "d_drinkName e = Some n" "n \<noteq> []"
  proof -
    have "n \<in> names_of (h1 @ [e])" using that by (simp add: names_of_snoc)
    then have "map_of (count_orders (h1 @ [e]) []) n = Some (total (h1 @ [e]) n)"
      using counter_inv_count_orders[of "h1 @ [e]"] unfolding counter_inv_def by blast
    then show ?thesis using that by (simp add: total_snoc qty_of_def)
  qed
  show ?thesis using a[of c] a[of "[]"] b[of c] b[of "[]"] d t
    by (simp add: top_of_file)
qed

theorem top_drinks_missing_fields_witness:
  "fst (get_top_drinks 3
      \<lparr>orders_file = Some
         ([\<lparr>d_drinkId = Some ''a'', d_drinkName = Some ''A'', d_quantity = Some 2, d_calories = Some 90\<rparr>]
          @ \<lparr>d_drinkId = Some ''x'', d_drinkName = None, d_quantity = Some 9, d_calories = Some 0\<rparr>
          # [\<lparr>d_drinkId = Some ''b'', d_drinkName = Some ''B'', d_quantity = Some 5, d_calories = Some 70\<rparr>]),
       io_log = []\<rparr>) = [''B'', ''A'']
   \<and> fst (get_top_drinks 3
      \<lparr>orders_file = Some
         ([\<lparr>d_drinkId = Some ''a'', d_drinkName = Some ''A'', d_quantity = Some 2, d_calories = Some 90\<rparr>]
          @ \<lparr>d_drinkId = Some ''b'', d_drinkName = Some ''B'', d_quantity = None, d_calories = Some 70\<rparr>
          # [\<lparr>d_drinkId = Some ''b'', d_drinkName = Some ''B'', d_quantity = Some 2, d_calories = Some 70\<rparr>]),
       io_log = []\<rparr>) = [''B'', ''A'']
   \<and> map_of (count_orders
         ([\<lparr>d_drinkId = Some ''a'', d_drinkName = Some ''A'', d_quantity = Some 2, d_calories = Some 90\<rparr>]
          @ [\<lparr>d_drinkId = Some ''a'', d_drinkName = Some ''A'', d_quantity = None, d_calories = Some 90\<rparr>]) [])
       ''A'' = Some 3"
proof -
  let ?a = "\<lparr>d_drinkId = Some ''a'', d_drinkName = Some ''A'', d_quantity = Some 2, d_calories = Some 90\<rparr>"
  let ?a1 = "\<lparr>d_drinkId = Some ''a'', d_drinkName = Some ''A'', d_quantity = None, d_calories = Some 90\<rparr>"
  let ?x = "\<lparr>d_drinkId = Some ''x'', d_drinkName = None, d_quantity = Some 9, d_calories = Some 0\<rparr>"
  let ?b = "\<lparr>d_drinkId = Some ''b'', d_drinkName = Some ''B'', d_quantity = Some 5, d_calories = Some 70\<rparr>"
  let ?b1 = "\<lparr>d_drinkId = Some ''b'', d_drinkName = Some ''B'', d_quantity = None, d_calories = Some 70\<rparr>"
  let ?b2 = "\<lparr>d_drinkId = Some ''b'', d_drinkName = Some ''B'', d_quantity = Some 2, d_calories = Some 70\<rparr>"
  have x: "d_drinkName ?x = None \<or> d_drinkName ?x = Some []" by simp
  have q: "d_quantity ?b1 = None" by simp
  have q1: "d_quantity ?a1 = None \<and> d_drinkName ?a1 = Some ''A'' \<and> ''A'' \<noteq> []" by simp
  have t: "total [?a] ''A'' = 2" by (simp add: total_def qty_of_def)
  have r1: "fst (get_top_drinks 3 \<lparr>orders_file = Some ([?a] @ [?b]), io_log = []\<rparr>) = [''B'', ''A'']"
    by (simp add: get_top_drinks_def load_orders_def most_common_def)
  have r2: "fst (get_top_drinks 3
     \<lparr>orders_file = Some ([?a] @ ?b1\<lparr>d_quantity := Some 1\<rparr> # [?b2]), io_log = []\<rparr>) = [''B'', ''A'']"
    by (simp add: get_top_drinks_def load_orders_def most_common_def)
  from top_drinks_missing_fields [of ?x "[?a]" "[?b]" "[]" 3 "[]"] x
  have 1: "fst (get_top_drinks 3 \<lparr>orders_file = Some ([?a] @ ?x # [?b]), io_log = []\<rparr>)
         = fst (get_top_drinks 3 \<lparr>orders_file = Some ([?a] @ [?b]), io_log = []\<rparr>)"
    by blast
  from top_drinks_missing_fields [of ?b1 "[?a]" "[?b2]" "[]" 3 "[]"] q
  have 2: "fst (get_top_drinks 3 \<lparr>orders_file = Some ([?a] @ ?b1 # [?b2]), io_log = []\<rparr>)
         = fst (get_top_drinks 3
             \<lparr>orders_file = Some ([?a] @ ?b1\<lparr>d_quantity := Some 1\<rparr> # [?b2]), io_log = []\<rparr>)"
    by blast
  from top_drinks_missing_fields [of ?a1 "[?a]" "[]" "[]" 3 "[]" _ "''A''"] q1
  have 3: "map_of (count_orders ([?a] @ [?a1]) []) ''A'' = Some (total [?a] ''A'' + 1)"
    by blast
  show ?thesis using 1 2 3 r1 r2 t by simp
qed

end
